theory Spec2Isabelle
  imports Complex_Main "HOL-Library.Word" "HOL-Library.Sublist"
begin

unbundle bit_operations_syntax

section \<open>SubVision: subtitle codec and audio range extractor\<close>

text \<open>
  A shallow embedding of the deterministic core of SubVision: \<^verbatim>\<open>parseSRT\<close>,
  \<^verbatim>\<open>extractAudioForTranscription\<close> and \<^verbatim>\<open>audioBufferToWav\<close> of \<^verbatim>\<open>src/App.tsx\<close>, and
  \<^verbatim>\<open>convertToSRT\<close> and \<^verbatim>\<open>translateSubtitles\<close> of \<^verbatim>\<open>src/services/geminiService.ts\<close>.

  Conventions of the embedding.
  \<^item> A JavaScript number is an exact rational (\<open>rat\<close>); where the code can produce
    \<^verbatim>\<open>NaN\<close> or an infinity the type \<open>jsnum\<close> adds them. Rounding of binary64 arithmetic
    is not modelled. Every finite 32-bit audio sample is a rational, and the products
    formed by the WAV encoder are exact in binary64, so that part loses nothing.
  \<^item> A JavaScript string is a \<open>string\<close>: a list of code units below 256.
  \<^item> An exception is a value \<open>Inl e\<close> of \<open>error + 'a\<close>; \<open>bindE\<close> sequences two steps and
    stops at the first exception.
  \<^item> A typed array or \<^verbatim>\<open>ArrayBuffer\<close> is a list; a write returns the updated list.
\<close>

subsection \<open>Exceptions\<close>

datatype error =
  TypeError | RangeError | NotSupportedError | IndexSizeError | SyntaxError | Error string

definition bindE :: "error + 'a \<Rightarrow> ('a \<Rightarrow> error + 'b) \<Rightarrow> error + 'b" where
  "bindE m f = (case m of Inl e \<Rightarrow> Inl e | Inr x \<Rightarrow> f x)"

subsection \<open>Numbers\<close>

text \<open>\<^verbatim>\<open>ToIntegerOrInfinity\<close> on a finite number: truncation towards zero.\<close>

definition js_trunc :: "rat \<Rightarrow> int" where
  "js_trunc x = (if 0 \<le> x then \<lfloor>x\<rfloor> else \<lceil>x\<rceil>)"

subsection \<open>Audio buffers\<close>

text \<open>
  An \<^verbatim>\<open>AudioBuffer\<close>: its sample rate (a whole number of hertz) and one list of samples
  per channel. \<^verbatim>\<open>buffer.length\<close> is the number of sample frames, \<^verbatim>\<open>buffer.duration\<close> is
  \<^verbatim>\<open>length / sampleRate\<close>, and \<^verbatim>\<open>getChannelData(k)\<close> raises for a channel that does
  not exist.
\<close>

type_synonym byte = "8 word"

record AudioBuffer =
  sampleRate :: nat
  channels :: "rat list list"

definition buffer_length :: "AudioBuffer \<Rightarrow> nat" where
  "buffer_length b = (case channels b of [] \<Rightarrow> 0 | c # _ \<Rightarrow> length c)"

definition duration :: "AudioBuffer \<Rightarrow> rat" where
  "duration b = of_nat (buffer_length b) / of_nat (sampleRate b)"

definition getChannelData :: "AudioBuffer \<Rightarrow> nat \<Rightarrow> error + rat list" where
  "getChannelData b k =
     (if k < length (channels b) then Inr (channels b ! k) else Inl IndexSizeError)"

text \<open>
  \<^verbatim>\<open>BaseAudioContext.createBuffer(numberOfChannels, length, sampleRate)\<close> of the Web Audio
  API returns a zero-filled buffer. It raises \<^verbatim>\<open>NotSupportedError\<close> when an argument is
  zero (the API requires at least one channel and a length of at least one frame) or
  outside its nominal range; the upper limits of the nominal ranges depend on the
  browser and are left out: the code passes one channel and the rate of a buffer that
  already exists.
\<close>

definition createBuffer :: "nat \<Rightarrow> nat \<Rightarrow> nat \<Rightarrow> error + AudioBuffer" where
  "createBuffer numberOfChannels len rate =
     (if numberOfChannels = 0 \<or> len = 0 \<or> rate = 0 then Inl NotSupportedError
      else Inr \<lparr>sampleRate = rate, channels = replicate numberOfChannels (replicate len 0)\<rparr>)"

text \<open>
  \<^verbatim>\<open>TypedArray.prototype.subarray(begin, end)\<close>: a negative index counts from the end, every
  index is clamped into the array, and an inverted range is empty.
\<close>

definition subarray :: "'a list \<Rightarrow> int \<Rightarrow> int \<Rightarrow> 'a list" where
  "subarray xs begin fin =
     (let n = int (length xs);
          b = (if begin < 0 then max (n + begin) 0 else min begin n);
          e = (if fin < 0 then max (n + fin) 0 else min fin n)
      in take (nat (max (e - b) 0)) (drop (nat b) xs))"

text \<open>
  \<^verbatim>\<open>TypedArray.prototype.set(source)\<close> at offset 0: raises \<^verbatim>\<open>RangeError\<close> when the source
  is longer than the target, and overwrites the first elements of the target otherwise.
\<close>

definition set_array :: "'a list \<Rightarrow> 'a list \<Rightarrow> error + 'a list" where
  "set_array target source =
     (if length source > length target then Inl RangeError
      else Inr (source @ drop (length source) target))"

subsection \<open>The audio range extractor\<close>

text \<open>
  \<^verbatim>\<open>extractAudioForTranscription\<close>, from the decoded \<^verbatim>\<open>audioBuffer\<close> on (decoding the media
  file is the browser's work). \<open>slicedBuffer\<close> is the buffer of that name after
  \<^verbatim>\<open>slicedData.set(channelData.subarray(startSample, endSample))\<close>.
\<close>

definition slicedBuffer :: "AudioBuffer \<Rightarrow> rat \<Rightarrow> rat \<Rightarrow> error + AudioBuffer" where
  "slicedBuffer audioBuffer start fin =
     (let rate = sampleRate audioBuffer;
          startSample = \<lfloor>start * of_nat rate\<rfloor>;
          endSample = \<lfloor>min fin (duration audioBuffer) * of_nat rate\<rfloor>;
          frameCount = max 0 (endSample - startSample)
      in bindE (createBuffer 1 (nat frameCount) rate) (\<lambda>sliced.
         bindE (getChannelData audioBuffer 0) (\<lambda>channelData.
         bindE (getChannelData sliced 0) (\<lambda>slicedData.
         bindE (set_array slicedData (subarray channelData startSample endSample)) (\<lambda>slicedData'.
         Inr (sliced\<lparr>channels := [slicedData']\<rparr>))))))"

subsection \<open>DataView writes and the WAV encoder\<close>

text \<open>
  The \<^verbatim>\<open>DataView\<close> setters convert the number to an integer modulo the field width
  (\<^verbatim>\<open>ToUint8\<close>, \<^verbatim>\<open>ToUint16\<close>, \<^verbatim>\<open>ToInt16\<close>, \<^verbatim>\<open>ToUint32\<close>), store it little-endian (the code
  always passes \<^verbatim>\<open>true\<close>), and raise \<^verbatim>\<open>RangeError\<close> when the field does not fit in the
  view.
\<close>

definition setUint8 :: "nat \<Rightarrow> rat \<Rightarrow> byte list \<Rightarrow> error + byte list" where
  "setUint8 off v a =
     (if off + 1 \<le> length a then Inr (a[off := word_of_int (js_trunc v)]) else Inl RangeError)"

definition put16 :: "nat \<Rightarrow> 16 word \<Rightarrow> byte list \<Rightarrow> error + byte list" where
  "put16 off w a =
     (if off + 2 \<le> length a
      then Inr (a[off := ucast w, off + 1 := ucast (drop_bit 8 w)])
      else Inl RangeError)"

definition setUint16 :: "nat \<Rightarrow> rat \<Rightarrow> byte list \<Rightarrow> error + byte list" where
  "setUint16 off v a = put16 off (word_of_int (js_trunc v)) a"

definition setInt16 :: "nat \<Rightarrow> rat \<Rightarrow> byte list \<Rightarrow> error + byte list" where
  "setInt16 off v a = put16 off (word_of_int (js_trunc v)) a"

definition setUint32 :: "nat \<Rightarrow> rat \<Rightarrow> byte list \<Rightarrow> error + byte list" where
  "setUint32 off v a =
     (let w = (word_of_int (js_trunc v) :: 32 word) in
      if off + 4 \<le> length a
      then Inr (a[off := ucast w, off + 1 := ucast (drop_bit 8 w),
                  off + 2 := ucast (drop_bit 16 w), off + 3 := ucast (drop_bit 24 w)])
      else Inl RangeError)"

text \<open>The little-endian reads of a \<^verbatim>\<open>DataView\<close>, used to state what the header holds.\<close>

definition getUint16 :: "nat \<Rightarrow> byte list \<Rightarrow> 16 word" where
  "getUint16 off a = ucast (a ! off) OR push_bit 8 (ucast (a ! (off + 1)))"

definition getInt16 :: "nat \<Rightarrow> byte list \<Rightarrow> int" where
  "getInt16 off a = sint (getUint16 off a)"

definition getUint32 :: "nat \<Rightarrow> byte list \<Rightarrow> 32 word" where
  "getUint32 off a = ucast (a ! off) OR push_bit 8 (ucast (a ! (off + 1)))
     OR push_bit 16 (ucast (a ! (off + 2))) OR push_bit 24 (ucast (a ! (off + 3)))"

text \<open>The bytes of an ASCII tag such as \<^verbatim>\<open>RIFF\<close>: the character codes.\<close>

definition codes :: "string \<Rightarrow> byte list" where
  "codes s = map (\<lambda>c. word_of_int (int (of_char c))) s"

fun writeString :: "nat \<Rightarrow> string \<Rightarrow> byte list \<Rightarrow> error + byte list" where
  "writeString offset [] a = Inr a"
| "writeString offset (c # cs) a =
     bindE (setUint8 offset (of_nat (of_char c)) a) (writeString (offset + 1) cs)"

text \<open>
  The number handed to \<^verbatim>\<open>setInt16\<close> for one sample:
  \<^verbatim>\<open>s = Math.max(-1, Math.min(1, channel[i])); s < 0 ? s * 0x8000 : s * 0x7FFF\<close>.
\<close>

definition sampleValue :: "rat \<Rightarrow> rat" where
  "sampleValue x = (let s = max (- 1) (min 1 x) in if s < 0 then s * 32768 else s * 32767)"

text \<open>The sample loop: \<^verbatim>\<open>offset\<close> starts at 44 and advances by 2 with every sample.\<close>

fun writeSamples :: "nat \<Rightarrow> rat list \<Rightarrow> byte list \<Rightarrow> error + byte list" where
  "writeSamples offset [] a = Inr a"
| "writeSamples offset (x # xs) a =
     bindE (setInt16 offset (sampleValue x) a) (writeSamples (offset + 2) xs)"

definition audioBufferToWav :: "AudioBuffer \<Rightarrow> error + byte list" where
  "audioBufferToWav buffer =
     (let len = buffer_length buffer * 2 + 44;
          array = replicate len (0 :: byte);
          rate = sampleRate buffer in
      bindE (writeString 0 ''RIFF'' array) (\<lambda>a.
      bindE (setUint32 4 (of_nat (32 + buffer_length buffer * 2)) a) (\<lambda>a.
      bindE (writeString 8 ''WAVE'' a) (\<lambda>a.
      bindE (writeString 12 ''fmt '' a) (\<lambda>a.
      bindE (setUint32 16 16 a) (\<lambda>a.
      bindE (setUint16 20 1 a) (\<lambda>a.
      bindE (setUint16 22 1 a) (\<lambda>a.
      bindE (setUint32 24 (of_nat rate) a) (\<lambda>a.
      bindE (setUint32 28 (of_nat (rate * 2)) a) (\<lambda>a.
      bindE (setUint16 32 2 a) (\<lambda>a.
      bindE (setUint16 34 16 a) (\<lambda>a.
      bindE (writeString 36 ''data'' a) (\<lambda>a.
      bindE (setUint32 40 (of_nat (buffer_length buffer * 2)) a) (\<lambda>a.
      bindE (getChannelData buffer 0) (\<lambda>channel.
      writeSamples 44 channel a)))))))))))))))"

text \<open>
  \<^verbatim>\<open>extractAudioForTranscription\<close> up to \<^verbatim>\<open>wavData\<close>; the result the code returns is the
  base64 text of these bytes.
\<close>

definition extractAudioForTranscription :: "AudioBuffer \<Rightarrow> rat \<Rightarrow> rat \<Rightarrow> error + byte list" where
  "extractAudioForTranscription audioBuffer start fin =
     bindE (slicedBuffer audioBuffer start fin) audioBufferToWav"

subsection \<open>Numbers that may be NaN or infinite\<close>

text \<open>
  The decoder can produce \<^verbatim>\<open>NaN\<close> (a malformed timecode) and, from the literal
  \<^verbatim>\<open>Infinity\<close>, an infinity; \<open>jsnum\<close> adds them to the rationals. Negative zero is not
  distinguished from zero. \<open>js_add\<close>, \<open>js_mul\<close> and \<open>js_div\<close> are \<^verbatim>\<open>+\<close>, \<^verbatim>\<open>*\<close> and \<^verbatim>\<open>/\<close>
  on numbers.
\<close>

datatype jsnum = Fin rat | PosInf | NegInf | NaN

fun js_add :: "jsnum \<Rightarrow> jsnum \<Rightarrow> jsnum" where
  "js_add (Fin a) (Fin b) = Fin (a + b)"
| "js_add NaN _ = NaN"
| "js_add _ NaN = NaN"
| "js_add PosInf NegInf = NaN"
| "js_add NegInf PosInf = NaN"
| "js_add PosInf _ = PosInf"
| "js_add _ PosInf = PosInf"
| "js_add NegInf _ = NegInf"
| "js_add _ NegInf = NegInf"

definition js_sgn :: "jsnum \<Rightarrow> int" where
  "js_sgn x = (case x of Fin a \<Rightarrow> (if a < 0 then - 1 else if a = 0 then 0 else 1)
     | PosInf \<Rightarrow> 1 | NegInf \<Rightarrow> - 1 | NaN \<Rightarrow> 0)"

fun js_mul :: "jsnum \<Rightarrow> jsnum \<Rightarrow> jsnum" where
  "js_mul (Fin a) (Fin b) = Fin (a * b)"
| "js_mul NaN _ = NaN"
| "js_mul _ NaN = NaN"
| "js_mul x y =
     (if js_sgn x * js_sgn y = 0 then NaN else if js_sgn x * js_sgn y < 0 then NegInf else PosInf)"

fun js_div :: "jsnum \<Rightarrow> jsnum \<Rightarrow> jsnum" where
  "js_div (Fin a) (Fin b) =
     (if b \<noteq> 0 then Fin (a / b) else if a = 0 then NaN else if a < 0 then NegInf else PosInf)"
| "js_div NaN _ = NaN"
| "js_div _ NaN = NaN"
| "js_div (Fin a) _ = Fin 0"
| "js_div x (Fin b) = (if js_sgn x * (if b < 0 then - 1 else 1) < 0 then NegInf else PosInf)"
| "js_div _ _ = NaN"

subsection \<open>Strings\<close>

text \<open>
  \<open>isSpace\<close> is the class \<^verbatim>\<open>\s\<close> of a regular expression and the set \<^verbatim>\<open>trim\<close> strips
  (white space and line terminators), among the code units below 256: tab, line feed,
  vertical tab, form feed, carriage return, space and no-break space.
\<close>

definition LF :: char where
  "LF = CHR 0x0A"

definition isSpace :: "char \<Rightarrow> bool" where
  "isSpace c = (c \<in> {CHR 0x09, CHR 0x0A, CHR 0x0B, CHR 0x0C, CHR 0x0D, CHR 0x20, CHR 0xA0})"

definition trim :: "string \<Rightarrow> string" where
  "trim s = rev (dropWhile isSpace (rev (dropWhile isSpace s)))"

text \<open>\<^verbatim>\<open>Array.prototype.join(sep)\<close> on an array of strings.\<close>

fun join :: "string \<Rightarrow> string list \<Rightarrow> string" where
  "join sep [] = []"
| "join sep [x] = x"
| "join sep (x # y # ys) = x @ sep @ join sep (y # ys)"

text \<open>
  An array element read by index or by destructuring: \<^verbatim>\<open>undefined\<close> (\<open>None\<close>) past the
  end of the array.
\<close>

definition nth_opt :: "'a list \<Rightarrow> nat \<Rightarrow> 'a option" where
  "nth_opt xs i = (if i < length xs then Some (xs ! i) else None)"

text \<open>
  \<^verbatim>\<open>String.prototype.split(sep)\<close> with a string separator: the string is cut at each
  occurrence of \<open>sep\<close>, found from left to right without overlap; the result of a
  non-empty separator always has at least one element. An empty separator splits into
  code units.
\<close>

function splitFrom :: "string \<Rightarrow> string \<Rightarrow> string list" where
  "splitFrom sep [] = [[]]"
| "splitFrom sep (c # cs) =
     (if sep \<noteq> [] \<and> prefix sep (c # cs) then [] # splitFrom sep (drop (length sep) (c # cs))
      else (case splitFrom sep cs of [] \<Rightarrow> [[c]] | r # rs \<Rightarrow> (c # r) # rs))"
  by pat_completeness auto
termination
  by (relation "measure (\<lambda>(sep, s). length s)") (auto simp: Suc_le_eq)

definition split :: "string \<Rightarrow> string \<Rightarrow> string list" where
  "split sep s = (if sep = [] then map (\<lambda>c. [c]) s else splitFrom sep s)"

text \<open>
  The regular expression \<^verbatim>\<open>/\n\s*\n/\<close> matched at the start of \<open>s\<close>. A line feed is itself
  white space, so there is a match exactly when \<open>s\<close> starts with a line feed and the
  longest run of white space after it holds another line feed; \<^verbatim>\<open>\s*\<close> is greedy, so the
  match ends after the last line feed of that run. The result is the text after the
  match.
\<close>

definition matchBlankLines :: "string \<Rightarrow> string option" where
  "matchBlankLines s =
     (case s of [] \<Rightarrow> None
      | c # cs \<Rightarrow>
          let ws = takeWhile isSpace cs in
          if c = LF \<and> LF \<in> set ws
          then Some (drop (length ws - length (takeWhile (\<lambda>x. x \<noteq> LF) (rev ws))) cs)
          else None)"

lemma matchBlankLines_shorter: "matchBlankLines (c # cs) = Some r \<Longrightarrow> length r \<le> length cs"
  by (auto simp: matchBlankLines_def Let_def split: if_splits)

text \<open>
  \<^verbatim>\<open>content.split(/\n\s*\n/)\<close>: the string is cut at each match, tried at every position
  from left to right; the search resumes after a match.
\<close>

function splitBlocks :: "string \<Rightarrow> string list" where
  "splitBlocks [] = [[]]"
| "splitBlocks (c # cs) =
     (case matchBlankLines (c # cs) of
        Some rest \<Rightarrow> [] # splitBlocks rest
      | None \<Rightarrow> (case splitBlocks cs of [] \<Rightarrow> [[c]] | r # rs \<Rightarrow> (c # r) # rs))"
  by pat_completeness auto
termination
  by (relation "measure length") (auto dest: matchBlankLines_shorter)

subsection \<open>Reading and writing numbers\<close>

definition isDigit :: "char \<Rightarrow> bool" where
  "isDigit c = (48 \<le> (of_char c :: nat) \<and> (of_char c :: nat) \<le> 57)"

text \<open>The value of a digit or letter in a radix up to 36.\<close>

definition digitOf :: "char \<Rightarrow> nat option" where
  "digitOf c =
     (let n = (of_char c :: nat) in
      if 48 \<le> n \<and> n \<le> 57 then Some (n - 48)
      else if 97 \<le> n \<and> n \<le> 122 then Some (n - 87)
      else if 65 \<le> n \<and> n \<le> 90 then Some (n - 55)
      else None)"

definition isRadixDigit :: "nat \<Rightarrow> char \<Rightarrow> bool" where
  "isRadixDigit R c = (case digitOf c of None \<Rightarrow> False | Some d \<Rightarrow> d < R)"

definition radixVal :: "nat \<Rightarrow> string \<Rightarrow> nat" where
  "radixVal R s = foldl (\<lambda>a c. R * a + (case digitOf c of None \<Rightarrow> 0 | Some d \<Rightarrow> d)) 0 s"

text \<open>
  \<^verbatim>\<open>parseInt(v)\<close> without a radix. \<^verbatim>\<open>undefined\<close> is first converted to the string
  \<^verbatim>\<open>undefined\<close>. Leading white space is skipped, then a sign and a prefix \<^verbatim>\<open>0x\<close> are read,
  and the longest run of digits that follows is the value; without a digit the result
  is \<^verbatim>\<open>NaN\<close>.
\<close>

definition parseInt :: "string option \<Rightarrow> jsnum" where
  "parseInt v =
     (let inputString = (case v of None \<Rightarrow> ''undefined'' | Some s \<Rightarrow> s);
          S = dropWhile isSpace inputString;
          neg = (S \<noteq> [] \<and> hd S = CHR ''-'');
          S1 = (if S \<noteq> [] \<and> (hd S = CHR ''+'' \<or> hd S = CHR ''-'') then tl S else S);
          hex = (take 2 S1 = ''0x'' \<or> take 2 S1 = ''0X'');
          R = (if hex then 16 else 10);
          S2 = (if hex then drop 2 S1 else S1);
          Z = takeWhile (isRadixDigit R) S2
      in if Z = [] then NaN
         else Fin ((if neg then - 1 else 1) * of_nat (radixVal R Z)))"

text \<open>
  \<^verbatim>\<open>Number(s)\<close> on a string: white space around the literal is ignored and the empty
  string is 0; the literal is \<^verbatim>\<open>Infinity\<close> with an optional sign, an unsigned binary,
  octal or hexadecimal integer, or a signed decimal with optional fraction and
  exponent; everything else is \<^verbatim>\<open>NaN\<close>.
\<close>

definition strDecimal :: "string \<Rightarrow> rat option" where
  "strDecimal t =
     (let ip = takeWhile isDigit t;
          r1 = dropWhile isDigit t;
          hasDot = (r1 \<noteq> [] \<and> hd r1 = CHR ''.'');
          fp = (if hasDot then takeWhile isDigit (tl r1) else []);
          r2 = (if hasDot then dropWhile isDigit (tl r1) else r1);
          mant = of_nat (radixVal 10 ip) + of_nat (radixVal 10 fp) / 10 ^ length fp
      in if ip = [] \<and> fp = [] then None
         else if r2 = [] then Some mant
         else if hd r2 = CHR ''e'' \<or> hd r2 = CHR ''E'' then
           (let r3 = tl r2;
                eneg = (r3 \<noteq> [] \<and> hd r3 = CHR ''-'');
                r4 = (if r3 \<noteq> [] \<and> (hd r3 = CHR ''+'' \<or> hd r3 = CHR ''-'') then tl r3 else r3)
            in if r4 \<noteq> [] \<and> list_all isDigit r4
               then Some (if eneg then mant / 10 ^ radixVal 10 r4 else mant * 10 ^ radixVal 10 r4)
               else None)
         else None)"

definition radixLiteral :: "nat \<Rightarrow> string \<Rightarrow> jsnum" where
  "radixLiteral R d =
     (if d \<noteq> [] \<and> list_all (isRadixDigit R) d then Fin (of_nat (radixVal R d)) else NaN)"

definition Number :: "string \<Rightarrow> jsnum" where
  "Number s =
     (let t = trim s in
      if t = [] then Fin 0
      else if t = ''Infinity'' \<or> t = ''+Infinity'' then PosInf
      else if t = ''-Infinity'' then NegInf
      else if take 2 t = ''0x'' \<or> take 2 t = ''0X'' then radixLiteral 16 (drop 2 t)
      else if take 2 t = ''0o'' \<or> take 2 t = ''0O'' then radixLiteral 8 (drop 2 t)
      else if take 2 t = ''0b'' \<or> take 2 t = ''0B'' then radixLiteral 2 (drop 2 t)
      else (let neg = (hd t = CHR ''-'');
                u = (if hd t = CHR ''+'' \<or> hd t = CHR ''-'' then tl t else t)
            in case strDecimal u of None \<Rightarrow> NaN | Some v \<Rightarrow> Fin (if neg then - v else v)))"

text \<open>A number of an array in arithmetic: \<^verbatim>\<open>undefined\<close> past the end, which converts to \<^verbatim>\<open>NaN\<close>.\<close>

definition nth_num :: "jsnum list \<Rightarrow> nat \<Rightarrow> jsnum" where
  "nth_num xs i = (if i < length xs then xs ! i else NaN)"

text \<open>Decimal digits of a natural number and of an integer (\<^verbatim>\<open>toString\<close>), and \<^verbatim>\<open>padStart\<close>.\<close>

definition digitChar :: "nat \<Rightarrow> char" where
  "digitChar d = char_of (48 + d)"

fun showNat :: "nat \<Rightarrow> string" where
  "showNat n = (if n < 10 then [digitChar n] else showNat (n div 10) @ [digitChar (n mod 10)])"

declare showNat.simps [simp del]

definition showInt :: "int \<Rightarrow> string" where
  "showInt i = (if i < 0 then CHR ''-'' # showNat (nat (- i)) else showNat (nat i))"

definition padStart :: "nat \<Rightarrow> char \<Rightarrow> string \<Rightarrow> string" where
  "padStart n c s = replicate (n - length s) c @ s"

subsection \<open>Captions and the application state\<close>

text \<open>
  \<^verbatim>\<open>Subtitle\<close> of \<^verbatim>\<open>types.ts\<close>; the fields \<^verbatim>\<open>id\<close> and \<^verbatim>\<open>text\<close> carry a suffix. \<open>AppState\<close> holds
  the two pieces of component state that \<^verbatim>\<open>parseSRT\<close> writes.
\<close>

record Subtitle =
  id_sub :: string
  startTime :: jsnum
  endTime :: jsnum
  text_sub :: string
  speaker :: "string option"

datatype step_kind =
  Idle | ExtractingAudio | DetectingSpeech | GeneratingSrt | Baking | ExportingChunks | Complete
  | Assessing



subsection \<open>The SRT decoder\<close>

text \<open>
  \<^verbatim>\<open>timeToSec\<close>. Its argument is \<^verbatim>\<open>undefined\<close> when the timecode line has no \<^verbatim>\<open> --> \<close>; then
  \<^verbatim>\<open>str.split\<close> raises \<^verbatim>\<open>TypeError\<close>. Missing parts do not raise: they make the result
  \<^verbatim>\<open>NaN\<close>.
\<close>

definition timeToSec :: "string option \<Rightarrow> error + jsnum" where
  "timeToSec v =
     (case v of None \<Rightarrow> Inl TypeError
      | Some str \<Rightarrow>
          let parts = split '','' str; ms = nth_opt parts 1 in
          (case nth_opt parts 0 of None \<Rightarrow> Inl TypeError
           | Some hms \<Rightarrow>
               let nums = map Number (split '':'' hms);
                   h = nth_num nums 0; m = nth_num nums 1; s = nth_num nums 2
               in Inr (js_add (js_add (js_add (js_mul h (Fin 3600)) (js_mul m (Fin 60))) s)
                         (js_div (parseInt ms) (Fin 1000)))))"

text \<open>
  \<^verbatim>\<open>textWithSpeaker.match(/^([^:]+):/)\<close>, its first group: \<^verbatim>\<open>[^:]+\<close> takes the longest run
  without a colon, which must be non-empty and followed by a colon.
  \<^verbatim>\<open>textWithSpeaker.replace(/^[^:]+:\s*/, '')\<close> removes that run, the colon and the white
  space after it.
\<close>

definition speakerMatch :: "string \<Rightarrow> string option" where
  "speakerMatch s =
     (let p = takeWhile (\<lambda>c. c \<noteq> CHR '':'') s in
      if p \<noteq> [] \<and> length p < length s then Some p else None)"

definition stripSpeaker :: "string \<Rightarrow> string" where
  "stripSpeaker s =
     (let p = takeWhile (\<lambda>c. c \<noteq> CHR '':'') s in
      if p \<noteq> [] \<and> length p < length s then dropWhile isSpace (drop (length p + 1) s) else s)"

text \<open>
  The function mapped over the blocks: \<open>Inr None\<close> is \<^verbatim>\<open>null\<close>. \<open>now i\<close> is the value of
  \<^verbatim>\<open>Date.now()\<close> when block \<open>i\<close> is decoded.
\<close>

definition parseBlock :: "(nat \<Rightarrow> nat) \<Rightarrow> nat \<Rightarrow> string \<Rightarrow> error + Subtitle option" where
  "parseBlock now i block =
     (let lines = split [LF] block in
      if length lines < 3 then Inr None
      else
        let timeLine = lines ! 1;
            parts = split '' --> '' timeLine;
            startStr = nth_opt parts 0;
            endStr = nth_opt parts 1;
            textWithSpeaker = join '' '' (drop 2 lines);
            m = speakerMatch textWithSpeaker;
            txt = (if m \<noteq> None then stripSpeaker textWithSpeaker else textWithSpeaker)
        in bindE (timeToSec startStr) (\<lambda>st.
           bindE (timeToSec endStr) (\<lambda>en.
           Inr (Some \<lparr>id_sub = ''srt-'' @ showNat (now i) @ ''-'' @ showNat i,
                      startTime = st, endTime = en, text_sub = txt, speaker = m\<rparr>))))"

text \<open>\<^verbatim>\<open>Array.prototype.map\<close> with a callback that may raise: the first exception ends it.\<close>

fun mapE :: "('a \<Rightarrow> error + 'b) \<Rightarrow> 'a list \<Rightarrow> error + 'b list" where
  "mapE f [] = Inr []"
| "mapE f (x # xs) = bindE (f x) (\<lambda>y. bindE (mapE f xs) (\<lambda>ys. Inr (y # ys)))"



subsection \<open>The SRT encoder\<close>


definition pad2 :: "int \<Rightarrow> string" where
  "pad2 n = padStart 2 (CHR ''0'') (showInt n)"




text \<open>
  \<^verbatim>\<open>convertToSRT\<close>. The sort is stable and compares \<^verbatim>\<open>a.startTime - b.startTime\<close>. With a
  \<^verbatim>\<open>NaN\<close> or infinite start time that comparison is inconsistent and the order depends
  on the engine; it does not matter, since every caption is formatted and
  \<^verbatim>\<open>formatTime\<close> raises the same \<^verbatim>\<open>RangeError\<close> on such a time. \<open>sortKey\<close> gives those times
  the key 0.
\<close>

definition sortKey :: "jsnum \<Rightarrow> rat" where
  "sortKey x = (case x of Fin a \<Rightarrow> a | _ \<Rightarrow> 0)"


subsection \<open>The translation call\<close>

text \<open>
  \<^verbatim>\<open>translateSubtitles\<close>. The collaborator \<^verbatim>\<open>ai.models.generateContent\<close> is a parameter. The
  request is determined by the captions and the flag; the prompt text and the response
  schema are constants of the source and are not repeated. The code reads the
  response only through \<^verbatim>\<open>JSON.parse(response.text?.trim())\<close>, so a \<open>reply\<close> is what that
  reading gives: the call raised, the text was missing or blank, the text was not
  JSON, or the value it denotes.
\<close>

datatype json =
  JNull | JBool bool | JNumber rat | JString string | JArray "json list"
  | JObject "(string \<times> json) list"

datatype reply = CallFails error | NoText | NotJson | Parsed json

record translation_request =
  adult_context :: bool
  json_data :: "Subtitle list"

definition translateSubtitles ::
  "(translation_request \<Rightarrow> reply) \<Rightarrow> Subtitle list \<Rightarrow> bool \<Rightarrow> error + json list" where
  "translateSubtitles generateContent subs adultContext =
     (case generateContent \<lparr>adult_context = adultContext, json_data = subs\<rparr> of
        CallFails e \<Rightarrow> Inl e
      | NoText \<Rightarrow> Inl (Error ''No translation response received.'')
      | NotJson \<Rightarrow> Inl SyntaxError
      | Parsed translated \<Rightarrow>
          (case translated of
             JArray items \<Rightarrow> Inr items
           | _ \<Rightarrow> Inl (Error ''AI response was not a valid array.'')))"

text \<open>
  What it means for an object of the response to echo a caption: its \<^verbatim>\<open>id\<close>,
  \<^verbatim>\<open>startTime\<close>, \<^verbatim>\<open>endTime\<close> and \<^verbatim>\<open>speaker\<close> are those of the caption, as \<^verbatim>\<open>JSON.stringify\<close>
  writes them (an absent speaker is an absent key).
\<close>

definition field :: "string \<Rightarrow> json \<Rightarrow> json option" where
  "field k j = (case j of JObject kvs \<Rightarrow> map_of kvs k | _ \<Rightarrow> None)"

definition number_json :: "jsnum \<Rightarrow> json" where
  "number_json x = (case x of Fin a \<Rightarrow> JNumber a | _ \<Rightarrow> JNull)"

definition echoes :: "Subtitle \<Rightarrow> json \<Rightarrow> bool" where
  "echoes sub j =
     (field ''id'' j = Some (JString (id_sub sub)) \<and>
      field ''startTime'' j = Some (number_json (startTime sub)) \<and>
      field ''endTime'' j = Some (number_json (endTime sub)) \<and>
      field ''speaker'' j = map_option JString (speaker sub))"

section \<open>Properties of the WAV encoder\<close>

subsection \<open>Auxiliary facts\<close>

definition le16 :: "16 word \<Rightarrow> byte list" where
  "le16 w = [ucast w, ucast (drop_bit 8 w)]"

definition le32 :: "32 word \<Rightarrow> byte list" where
  "le32 w = [ucast w, ucast (drop_bit 8 w), ucast (drop_bit 16 w), ucast (drop_bit 24 w)]"

definition patch :: "nat \<Rightarrow> 'a list \<Rightarrow> 'a list \<Rightarrow> 'a list" where
  "patch off bs a = take off a @ bs @ drop (off + length bs) a"

definition pcm16 :: "rat \<Rightarrow> 16 word" where
  "pcm16 x = word_of_int (js_trunc (sampleValue x))"

definition pcm_bytes :: "rat list \<Rightarrow> byte list" where
  "pcm_bytes xs = concat (map (\<lambda>x. le16 (pcm16 x)) xs)"


lemma js_trunc_of_nat [simp]: "js_trunc (of_nat n) = int n"
  by (simp add: js_trunc_def)

lemma js_trunc_numeral [simp]: "js_trunc (numeral n) = numeral n" "js_trunc 1 = 1" "js_trunc 0 = 0"
  by (simp_all add: js_trunc_def)

lemma floor_rat_numeral [simp]:
  "\<lfloor>numeral a / numeral b :: rat\<rfloor> = numeral a div numeral b"
  "\<lfloor>- (numeral a / numeral b) :: rat\<rfloor> = - numeral a div numeral b"
  using floor_divide_of_int_eq [of "numeral a" "numeral b", where ?'a = rat]
    floor_divide_of_int_eq [of "- numeral a" "numeral b", where ?'a = rat]
  by simp_all

lemma ceiling_rat_numeral [simp]:
  "\<lceil>numeral a / numeral b :: rat\<rceil> = - (- numeral a div numeral b)"
  "\<lceil>- (numeral a / numeral b) :: rat\<rceil> = - (numeral a div numeral b)"
  by (simp_all add: ceiling_def)

lemma bindE_Inr: "bindE (Inr x) f = f x"
  by (simp add: bindE_def)

lemma read_le32:
  "(ucast (ucast (w::32 word) :: byte) :: 32 word) OR push_bit 8 (ucast (ucast (drop_bit 8 w) :: byte))
     OR push_bit 16 (ucast (ucast (drop_bit 16 w) :: byte))
     OR push_bit 24 (ucast (ucast (drop_bit 24 w) :: byte)) = w"
proof (rule bit_word_eqI)
  fix n assume "n < LENGTH(32)"
  then show "bit (ucast (ucast w :: byte) OR push_bit 8 (ucast (ucast (drop_bit 8 w) :: byte))
      OR push_bit 16 (ucast (ucast (drop_bit 16 w) :: byte))
      OR push_bit 24 (ucast (ucast (drop_bit 24 w) :: byte)) :: 32 word) n = bit w n"
    by (cases "n < 8"; cases "n < 16"; cases "n < 24") (auto simp: bit_simps)
qed

lemma read_le16:
  "(ucast (ucast (w::16 word) :: byte) :: 16 word) OR push_bit 8 (ucast (ucast (drop_bit 8 w) :: byte)) = w"
proof (rule bit_word_eqI)
  fix n assume "n < LENGTH(16)"
  then show "bit (ucast (ucast w :: byte) OR push_bit 8 (ucast (ucast (drop_bit 8 w) :: byte)) :: 16 word) n
      = bit w n"
    by (cases "n < 8") (auto simp: bit_simps)
qed

lemma length_codes [simp]: "length (codes s) = length s"
  by (simp add: codes_def)

lemma length_le16 [simp]: "length (le16 w) = 2"
  by (simp add: le16_def)

lemma length_le32 [simp]: "length (le32 w) = 4"
  by (simp add: le32_def)

lemma length_pcm_bytes [simp]: "length (pcm_bytes xs) = 2 * length xs"
  by (induction xs) (simp_all add: pcm_bytes_def)

lemma length_patch: "off + length bs \<le> length a \<Longrightarrow> length (patch off bs a) = length a"
  by (simp add: patch_def)

lemma patch_append:
  "off + length bs \<le> length h \<Longrightarrow> patch off bs (h @ z) = patch off bs h @ z"
  by (simp add: patch_def)

lemma put16_patch: "off + 2 \<le> length a \<Longrightarrow> put16 off w a = Inr (patch off (le16 w) a)"
  by (simp add: put16_def le16_def patch_def upd_conv_take_nth_drop take_Suc_conv_app_nth min_def)

lemma setUint32_patch:
  "off + 4 \<le> length a \<Longrightarrow>
   setUint32 off v a = Inr (patch off (le32 (word_of_int (js_trunc v))) a)"
  by (simp add: setUint32_def le32_def patch_def upd_conv_take_nth_drop take_Suc_conv_app_nth
      min_def Let_def)

lemma writeString_patch:
  "off + length s \<le> length a \<Longrightarrow> writeString off s a = Inr (patch off (codes s) a)"
proof (induction s arbitrary: off a)
  case Nil
  then show ?case by (simp add: patch_def codes_def)
next
  case (Cons c cs)
  let ?a = "a[off := word_of_int (int (of_char c))]"
  have "writeString (off + 1) cs ?a = Inr (patch (off + 1) (codes cs) ?a)"
    using Cons.prems by (intro Cons.IH) simp
  then show ?case
    using Cons.prems
    by (simp add: setUint8_def bindE_def patch_def codes_def take_Suc_conv_app_nth
        upd_conv_take_nth_drop)
qed

lemma writeSamples_patch:
  "off + 2 * length xs \<le> length a \<Longrightarrow> writeSamples off xs a = Inr (patch off (pcm_bytes xs) a)"
proof (induction xs arbitrary: off a)
  case Nil
  then show ?case by (simp add: patch_def pcm_bytes_def)
next
  case (Cons x xs)
  let ?a = "patch off (le16 (pcm16 x)) a"
  have len: "length ?a = length a"
    using Cons.prems by (simp add: length_patch)
  have "writeSamples (off + 2) xs ?a = Inr (patch (off + 2) (pcm_bytes xs) ?a)"
    using Cons.prems len by (intro Cons.IH) simp
  moreover have "patch (off + 2) (pcm_bytes xs) ?a = patch off (pcm_bytes (x # xs)) a"
    using Cons.prems
    by (simp add: patch_def le16_def pcm_bytes_def length_concat comp_def sum_list_triv min_def add_ac)
  ultimately show ?case
    using Cons.prems by (simp add: setInt16_def put16_patch bindE_def pcm16_def)
qed

lemma step32:
  "length a = L \<Longrightarrow> off + 4 \<le> L \<Longrightarrow>
   setUint32 off v a = Inr (patch off (le32 (word_of_int (js_trunc v))) a) \<and>
   length (patch off (le32 (word_of_int (js_trunc v))) a) = L"
  by (simp add: setUint32_patch length_patch)

lemma step16:
  "length a = L \<Longrightarrow> off + 2 \<le> L \<Longrightarrow>
   setUint16 off v a = Inr (patch off (le16 (word_of_int (js_trunc v))) a) \<and>
   length (patch off (le16 (word_of_int (js_trunc v))) a) = L"
  by (simp add: setUint16_def put16_patch length_patch)

lemma stepS:
  "length a = L \<Longrightarrow> off + length s \<le> L \<Longrightarrow>
   writeString off s a = Inr (patch off (codes s) a) \<and> length (patch off (codes s) a) = L"
  by (simp add: writeString_patch length_patch)

definition wav_patches :: "nat \<Rightarrow> nat \<Rightarrow> byte list \<Rightarrow> byte list" where
  "wav_patches R N a =
     (patch 40 (le32 (of_nat (N * 2)))
     (patch 36 (codes ''data'')
     (patch 34 (le16 16)
     (patch 32 (le16 2)
     (patch 28 (le32 (of_nat (R * 2)))
     (patch 24 (le32 (of_nat R))
     (patch 22 (le16 1)
     (patch 20 (le16 1)
     (patch 16 (le32 16)
     (patch 12 (codes ''fmt '')
     (patch 8 (codes ''WAVE'')
     (patch 4 (le32 (of_nat (32 + N * 2)))
     (patch 0 (codes ''RIFF'') a)))))))))))))"

definition wav_header :: "nat \<Rightarrow> nat \<Rightarrow> byte list" where
  "wav_header R N =
     codes ''RIFF'' @ le32 (of_nat (32 + N * 2)) @ codes ''WAVE'' @ codes ''fmt '' @ le32 16 @
     le16 1 @ le16 1 @ le32 (of_nat R) @ le32 (of_nat (R * 2)) @ le16 2 @ le16 16 @
     codes ''data'' @ le32 (of_nat (N * 2))"

lemma length_wav_header [simp]: "length (wav_header R N) = 44"
  by (simp add: wav_header_def)

lemma wav_patches_zero:
  "wav_patches R N ([0,0,0,0,0,0,0,0,0,0,0,0,0,0,0,0,0,0,0,0,0,0,0,0,0,0,0,0,0,0,0,0,0,0,0,0,0,0,0,0,0,0,0,0] @ z)
    = wav_header R N @ z"
  unfolding wav_patches_def wav_header_def
  by (simp add: patch_def le32_def le16_def codes_def)

lemma wav_chain:
  assumes "writeString 0 ''RIFF'' (replicate (buffer_length b * 2 + 44) 0) = Inr a1"
    and "setUint32 4 (of_nat (32 + buffer_length b * 2)) a1 = Inr a2"
    and "writeString 8 ''WAVE'' a2 = Inr a3"
    and "writeString 12 ''fmt '' a3 = Inr a4"
    and "setUint32 16 16 a4 = Inr a5"
    and "setUint16 20 1 a5 = Inr a6"
    and "setUint16 22 1 a6 = Inr a7"
    and "setUint32 24 (of_nat (sampleRate b)) a7 = Inr a8"
    and "setUint32 28 (of_nat (sampleRate b * 2)) a8 = Inr a9"
    and "setUint16 32 2 a9 = Inr a10"
    and "setUint16 34 16 a10 = Inr a11"
    and "writeString 36 ''data'' a11 = Inr a12"
    and "setUint32 40 (of_nat (buffer_length b * 2)) a12 = Inr a13"
    and "getChannelData b 0 = Inr ch"
    and "writeSamples 44 ch a13 = Inr out"
  shows "audioBufferToWav b = Inr out"
  unfolding audioBufferToWav_def Let_def
  by (simp only: assms bindE_Inr)

lemma wav_bytes_patches:
  assumes ch: "channels b = ch # rest"
  shows "audioBufferToWav b =
   Inr (patch 44 (pcm_bytes ch)
         (wav_patches (sampleRate b) (length ch) (replicate (length ch * 2 + 44) 0)))"
proof -
  let ?N = "length ch"
  let ?R = "sampleRate b"
  let ?L = "?N * 2 + 44"
  let ?a0 = "replicate ?L (0::byte)"
  let ?a1 = "patch 0 (codes ''RIFF'') ?a0"
  let ?a2 = "patch 4 (le32 (word_of_int (js_trunc (of_nat (32 + ?N * 2))))) ?a1"
  let ?a3 = "patch 8 (codes ''WAVE'') ?a2"
  let ?a4 = "patch 12 (codes ''fmt '') ?a3"
  let ?a5 = "patch 16 (le32 (word_of_int (js_trunc 16))) ?a4"
  let ?a6 = "patch 20 (le16 (word_of_int (js_trunc 1))) ?a5"
  let ?a7 = "patch 22 (le16 (word_of_int (js_trunc 1))) ?a6"
  let ?a8 = "patch 24 (le32 (word_of_int (js_trunc (of_nat ?R)))) ?a7"
  let ?a9 = "patch 28 (le32 (word_of_int (js_trunc (of_nat (?R * 2))))) ?a8"
  let ?a10 = "patch 32 (le16 (word_of_int (js_trunc 2))) ?a9"
  let ?a11 = "patch 34 (le16 (word_of_int (js_trunc 16))) ?a10"
  let ?a12 = "patch 36 (codes ''data'') ?a11"
  let ?a13 = "patch 40 (le32 (word_of_int (js_trunc (of_nat (?N * 2))))) ?a12"
  have bl: "buffer_length b = ?N" and gc: "getChannelData b 0 = Inr ch"
    using ch by (simp_all add: buffer_length_def getChannelData_def)
  have s1: "writeString 0 ''RIFF'' ?a0 = Inr ?a1 \<and> length ?a1 = ?L"
    by (rule stepS) simp_all
  have s2: "setUint32 4 (of_nat (32 + ?N * 2)) ?a1 = Inr ?a2 \<and> length ?a2 = ?L"
    by (rule step32 [OF conjunct2 [OF s1]]) simp
  have s3: "writeString 8 ''WAVE'' ?a2 = Inr ?a3 \<and> length ?a3 = ?L"
    by (rule stepS [OF conjunct2 [OF s2]]) simp
  have s4: "writeString 12 ''fmt '' ?a3 = Inr ?a4 \<and> length ?a4 = ?L"
    by (rule stepS [OF conjunct2 [OF s3]]) simp
  have s5: "setUint32 16 16 ?a4 = Inr ?a5 \<and> length ?a5 = ?L"
    by (rule step32 [OF conjunct2 [OF s4]]) simp
  have s6: "setUint16 20 1 ?a5 = Inr ?a6 \<and> length ?a6 = ?L"
    by (rule step16 [OF conjunct2 [OF s5]]) simp
  have s7: "setUint16 22 1 ?a6 = Inr ?a7 \<and> length ?a7 = ?L"
    by (rule step16 [OF conjunct2 [OF s6]]) simp
  have s8: "setUint32 24 (of_nat ?R) ?a7 = Inr ?a8 \<and> length ?a8 = ?L"
    by (rule step32 [OF conjunct2 [OF s7]]) simp
  have s9: "setUint32 28 (of_nat (?R * 2)) ?a8 = Inr ?a9 \<and> length ?a9 = ?L"
    by (rule step32 [OF conjunct2 [OF s8]]) simp
  have s10: "setUint16 32 2 ?a9 = Inr ?a10 \<and> length ?a10 = ?L"
    by (rule step16 [OF conjunct2 [OF s9]]) simp
  have s11: "setUint16 34 16 ?a10 = Inr ?a11 \<and> length ?a11 = ?L"
    by (rule step16 [OF conjunct2 [OF s10]]) simp
  have s12: "writeString 36 ''data'' ?a11 = Inr ?a12 \<and> length ?a12 = ?L"
    by (rule stepS [OF conjunct2 [OF s11]]) simp
  have s13: "setUint32 40 (of_nat (?N * 2)) ?a12 = Inr ?a13 \<and> length ?a13 = ?L"
    by (rule step32 [OF conjunct2 [OF s12]]) simp
  have s14: "writeSamples 44 ch ?a13 = Inr (patch 44 (pcm_bytes ch) ?a13)"
    by (rule writeSamples_patch) (use conjunct2 [OF s13] in linarith)
  note chain = wav_chain [of b, unfolded bl]
  have "audioBufferToWav b = Inr (patch 44 (pcm_bytes ch) ?a13)"
    by (rule chain [OF conjunct1 [OF s1] conjunct1 [OF s2] conjunct1 [OF s3] conjunct1 [OF s4]
        conjunct1 [OF s5] conjunct1 [OF s6] conjunct1 [OF s7] conjunct1 [OF s8] conjunct1 [OF s9]
        conjunct1 [OF s10] conjunct1 [OF s11] conjunct1 [OF s12] conjunct1 [OF s13] gc s14])
  then show ?thesis
    unfolding wav_patches_def
    by (simp only: js_trunc_of_nat js_trunc_numeral of_int_of_nat_eq of_int_numeral of_int_1)
qed

lemma wav_bytes:
  assumes ch: "channels b = ch # rest"
  shows "audioBufferToWav b = Inr (wav_header (sampleRate b) (length ch) @ pcm_bytes ch)"
proof -
  have z: "replicate (length ch * 2 + 44) (0::byte) =
      [0,0,0,0,0,0,0,0,0,0,0,0,0,0,0,0,0,0,0,0,0,0,0,0,0,0,0,0,0,0,0,0,0,0,0,0,0,0,0,0,0,0,0,0]
        @ replicate (length ch * 2) 0"
    by (simp add: replicate_add [of 44, symmetric] add.commute flip: replicate_Suc)
  show ?thesis
    unfolding wav_bytes_patches [OF ch] z wav_patches_zero
    by (simp add: patch_def)
qed


lemma unat_u32: "n < 2 ^ 32 \<Longrightarrow> unat (of_nat n :: 32 word) = n"
  by (simp add: unat_of_nat take_bit_nat_eq_self)

lemma sint_i16: "- (2 ^ 15) \<le> k \<Longrightarrow> k < 2 ^ 15 \<Longrightarrow> sint (word_of_int k :: 16 word) = k"
  by (simp add: sint_sbintrunc' signed_take_bit_int_eq_self)

lemma sampleValue_range: "- 32768 \<le> js_trunc (sampleValue x) \<and> js_trunc (sampleValue x) \<le> 32767"
proof -
  define s where "s = max (- 1) (min 1 x)"
  have b: "- 1 \<le> s" "s \<le> 1" by (simp_all add: s_def)
  show ?thesis
  proof (cases "s < 0")
    case True
    then have v: "sampleValue x = s * 32768" by (simp add: sampleValue_def s_def Let_def)
    have "- 32768 \<le> s * 32768" "s * 32768 < 0" using b True by simp_all
    then show ?thesis unfolding v js_trunc_def by (simp add: le_ceiling_iff ceiling_le_iff)
  next
    case False
    then have v: "sampleValue x = s * 32767" by (simp add: sampleValue_def s_def Let_def)
    have "0 \<le> s * 32767" "s * 32767 \<le> 32767" using b False by simp_all
    then show ?thesis unfolding v js_trunc_def by (simp add: le_floor_iff floor_le_iff)
  qed
qed

lemma sint_pcm16: "sint (pcm16 x) = js_trunc (sampleValue x)"
  unfolding pcm16_def using sampleValue_range [of x] by (intro sint_i16) simp_all

lemma pcm_bytes_nth:
  "i < length xs \<Longrightarrow>
   pcm_bytes xs ! (2 * i) = ucast (pcm16 (xs ! i)) \<and>
   pcm_bytes xs ! (2 * i + 1) = ucast (drop_bit 8 (pcm16 (xs ! i)))"
proof (induction xs arbitrary: i)
  case Nil
  then show ?case by simp
next
  case (Cons x xs)
  show ?case
  proof (cases i)
    case 0
    then show ?thesis by (simp add: pcm_bytes_def le16_def)
  next
    case (Suc j)
    then have "j < length xs" using Cons.prems by simp
    from Cons.IH [OF this] show ?thesis
      using Suc by (simp add: pcm_bytes_def le16_def)
  qed
qed

lemma getInt16_sample:
  assumes "length h = 44" "i < length xs"
  shows "getInt16 (44 + 2 * i) (h @ pcm_bytes xs) = js_trunc (sampleValue (xs ! i))"
proof -
  have "getUint16 (44 + 2 * i) (h @ pcm_bytes xs) = pcm16 (xs ! i)"
    using assms pcm_bytes_nth [OF assms(2)]
    by (simp add: getUint16_def nth_append read_le16)
  then show ?thesis by (simp add: getInt16_def sint_pcm16)
qed

lemma header_fields:
  "getUint32 4 (wav_header R N @ p) = of_nat (32 + N * 2)"
  "getUint32 16 (wav_header R N @ p) = 16"
  "getUint16 20 (wav_header R N @ p) = 1"
  "getUint16 22 (wav_header R N @ p) = 1"
  "getUint32 24 (wav_header R N @ p) = of_nat R"
  "getUint32 28 (wav_header R N @ p) = of_nat (R * 2)"
  "getUint16 32 (wav_header R N @ p) = 2"
  "getUint16 34 (wav_header R N @ p) = 16"
  "getUint32 40 (wav_header R N @ p) = of_nat (N * 2)"
  unfolding getUint32_def getUint16_def wav_header_def
  by (simp_all add: codes_def le32_def le16_def read_le32 read_le16)

lemma header_tags:
  "take 4 (wav_header R N) = codes ''RIFF''"
  "take 4 (drop 8 (wav_header R N)) = codes ''WAVE''"
  "take 4 (drop 12 (wav_header R N)) = codes ''fmt ''"
  "take 4 (drop 36 (wav_header R N)) = codes ''data''"
  unfolding wav_header_def
  by (simp_all add: codes_def le32_def le16_def)


subsection \<open>The header\<close>

text \<open>
  Claim C5. For a single-channel buffer of \<open>N\<close> frames at sample rate \<open>R\<close> the encoder
  returns (without an exception) exactly \<open>44 + 2 * N\<close> bytes. The first 44 are the PCM
  header: the tags \<^verbatim>\<open>RIFF\<close>, \<^verbatim>\<open>WAVE\<close>, \<^verbatim>\<open>fmt \<close> and \<^verbatim>\<open>data\<close>, and the little-endian fields
  format tag 1 (offset 20), channel count 1 (offset 22), sample rate \<open>R\<close> (offset 24),
  byte rate \<open>R * 2\<close> (offset 28), block align 2 (offset 32), bits per sample 16
  (offset 34) and data size \<open>2 * N\<close> (offset 40). A 32-bit field holds its value as a
  32-bit word; read as a number it is that value whenever the value fits in 32 bits.
  One second of silence at 44100 Hz encodes to \<open>44 + 88200\<close> bytes.

  The header is not the canonical one. The remaining field, the RIFF chunk size at
  offset 4, holds \<open>32 + 2 * N\<close>, which is the length of the stream minus 12; the
  canonical header holds there the length of the stream minus 8. For the second of
  silence the field is 88232 and the canonical value 88236.
\<close>

theorem wav_header_layout:
  "(\<exists>bytes. audioBufferToWav \<lparr>sampleRate = R, channels = [xs]\<rparr> = Inr bytes \<and>
      length bytes = 44 + 2 * length xs \<and>
      take 4 bytes = codes ''RIFF'' \<and>
      take 4 (drop 8 bytes) = codes ''WAVE'' \<and>
      take 4 (drop 12 bytes) = codes ''fmt '' \<and>
      getUint32 16 bytes = 16 \<and>
      getUint16 20 bytes = 1 \<and>
      getUint16 22 bytes = 1 \<and>
      getUint32 24 bytes = of_nat R \<and>
      getUint32 28 bytes = of_nat (R * 2) \<and>
      getUint16 32 bytes = 2 \<and>
      getUint16 34 bytes = 16 \<and>
      take 4 (drop 36 bytes) = codes ''data'' \<and>
      getUint32 40 bytes = of_nat (2 * length xs) \<and>
      (R * 2 < 2 ^ 32 \<longrightarrow> unat (getUint32 24 bytes) = R \<and> unat (getUint32 28 bytes) = R * 2) \<and>
      (2 * length xs < 2 ^ 32 \<longrightarrow> unat (getUint32 40 bytes) = 2 * length xs) \<and>
      getUint32 4 bytes = of_nat (32 + 2 * length xs) \<and>
      getUint32 4 bytes \<noteq> of_nat (length bytes - 8) \<and>
      (2 * length xs < 2 ^ 31 \<longrightarrow> unat (getUint32 4 bytes) = length bytes - 12)) \<and>
   (\<exists>bytes. audioBufferToWav \<lparr>sampleRate = 44100, channels = [replicate 44100 0]\<rparr> = Inr bytes \<and>
      length bytes = 44 + 88200 \<and>
      unat (getUint32 4 bytes) = 88232 \<and> length bytes - 8 = 88236)"
proof -
  have w: "audioBufferToWav \<lparr>sampleRate = R, channels = [xs]\<rparr> = Inr (wav_header R (length xs) @ pcm_bytes xs)"
    for R xs
    using wav_bytes [of "\<lparr>sampleRate = R, channels = [xs]\<rparr>" xs "[]"] by simp
  have "(of_nat (32 + length xs * 2) :: 32 word) + 4 = of_nat (36 + length xs * 2)"
    by simp
  moreover have "(4 :: 32 word) \<noteq> 0"
    by simp
  ultimately have d: "(of_nat (32 + length xs * 2) :: 32 word) \<noteq> of_nat (36 + length xs * 2)"
    by (metis add_cancel_right_right)
  show ?thesis
    unfolding w using d
    by (simp add: header_fields header_tags unat_u32 mult.commute del: of_nat_mult of_nat_add)
qed

theorem wav_header_layout_witness:
  "\<exists>bytes. audioBufferToWav \<lparr>sampleRate = 44100, channels = [[0, 1 / 2]]\<rparr> = Inr bytes \<and>
      length bytes = 48 \<and>
      getUint16 22 bytes = 1 \<and>
      getUint16 34 bytes = 16 \<and>
      unat (getUint32 24 bytes) = 44100 \<and>
      unat (getUint32 28 bytes) = 88200 \<and>
      unat (getUint32 40 bytes) = 4 \<and>
      unat (getUint32 4 bytes) = 36 \<and> length bytes - 8 = 40"
  using wav_header_layout [of 44100 "[0, 1 / 2]"] by auto

text \<open>
  Claim C10. The 32-bit little-endian RIFF chunk size at offset 4 is \<open>32 + 2 * N\<close>: 4 less
  than \<open>36 + 2 * N\<close>, the size of the file minus 8, which a canonical 44-byte-header file
  stores there.
\<close>

theorem riff_chunk_size:
  "\<exists>bytes. audioBufferToWav \<lparr>sampleRate = R, channels = [xs]\<rparr> = Inr bytes \<and>
      getUint32 4 bytes = of_nat (32 + 2 * length xs) \<and>
      getUint32 4 bytes + 4 = of_nat (36 + 2 * length xs) \<and>
      length bytes - 8 = 36 + 2 * length xs \<and>
      (2 * length xs < 2 ^ 31 \<longrightarrow>
         unat (getUint32 4 bytes) = 32 + 2 * length xs \<and>
         unat (getUint32 4 bytes) + 4 = length bytes - 8)"
proof -
  have "audioBufferToWav \<lparr>sampleRate = R, channels = [xs]\<rparr> = Inr (wav_header R (length xs) @ pcm_bytes xs)"
    using wav_bytes [of "\<lparr>sampleRate = R, channels = [xs]\<rparr>" xs "[]"] by simp
  moreover have "(of_nat (32 + length xs * 2) :: 32 word) + 4 = of_nat (36 + length xs * 2)"
    by simp
  ultimately show ?thesis
    by (simp add: header_fields unat_u32 mult.commute del: of_nat_mult of_nat_add)
qed

theorem riff_chunk_size_witness:
  "\<exists>bytes. audioBufferToWav \<lparr>sampleRate = 8000, channels = [[0, 1 / 2, - 1]]\<rparr> = Inr bytes \<and>
      length bytes = 50 \<and> unat (getUint32 4 bytes) = 38 \<and> length bytes - 8 = 42"
  using riff_chunk_size [of 8000 "[0, 1 / 2, - 1]"] by auto

subsection \<open>The samples\<close>

text \<open>
  Claim C6. Sample \<open>i\<close> is clamped to \<open>[-1, 1]\<close>, multiplied by 32768 when the clamped
  value is negative and by 32767 otherwise, truncated, and stored as a signed 16-bit
  integer at offset \<open>44 + 2 * i\<close>; no wrap-around occurs. A sample of \<open>-1\<close> or below is
  stored as \<open>-32768\<close>, a sample of \<open>1\<close> or above as \<open>32767\<close>.
\<close>

theorem sample_conversion:
  "i < length xs \<Longrightarrow>
   \<exists>bytes. audioBufferToWav \<lparr>sampleRate = R, channels = [xs]\<rparr> = Inr bytes \<and>
     (let s = max (- 1) (min 1 (xs ! i)) in
        - 1 \<le> s \<and> s \<le> 1 \<and>
        getInt16 (44 + 2 * i) bytes = js_trunc (if s < 0 then s * 32768 else s * 32767)) \<and>
     - 32768 \<le> getInt16 (44 + 2 * i) bytes \<and> getInt16 (44 + 2 * i) bytes \<le> 32767 \<and>
     (xs ! i \<le> - 1 \<longrightarrow> getInt16 (44 + 2 * i) bytes = - 32768) \<and>
     (1 \<le> xs ! i \<longrightarrow> getInt16 (44 + 2 * i) bytes = 32767)"
proof -
  assume i: "i < length xs"
  have w: "audioBufferToWav \<lparr>sampleRate = R, channels = [xs]\<rparr> = Inr (wav_header R (length xs) @ pcm_bytes xs)"
    using wav_bytes [of "\<lparr>sampleRate = R, channels = [xs]\<rparr>" xs "[]"] by simp
  have g: "getInt16 (44 + 2 * i) (wav_header R (length xs) @ pcm_bytes xs) = js_trunc (sampleValue (xs ! i))"
    by (rule getInt16_sample) (simp_all add: i)
  have lo: "xs ! i \<le> - 1 \<Longrightarrow> sampleValue (xs ! i) = - 32768"
    by (simp add: sampleValue_def Let_def max_def min_def)
  have hi: "1 \<le> xs ! i \<Longrightarrow> sampleValue (xs ! i) = 32767"
    by (simp add: sampleValue_def Let_def max_def min_def)
  show ?thesis
    unfolding w using sampleValue_range [of "xs ! i"]
    by (auto simp: g lo hi Let_def sampleValue_def js_trunc_def)
qed

theorem sample_conversion_witness:
  "\<exists>bytes. audioBufferToWav \<lparr>sampleRate = 8000, channels = [[1 / 2, - 3, 1, - 1 / 3]]\<rparr> = Inr bytes \<and>
     getInt16 44 bytes = 16383 \<and> getInt16 46 bytes = - 32768 \<and> getInt16 48 bytes = 32767 \<and>
     getInt16 50 bytes = - 10922"
proof -
  let ?xs = "[1 / 2, - 3, 1, - 1 / 3] :: rat list"
  have l: "0 < length ?xs" "1 < length ?xs" "2 < length ?xs" "3 < length ?xs" by simp_all
  show ?thesis
    using sample_conversion [OF l(1), of 8000] sample_conversion [OF l(2), of 8000]
      sample_conversion [OF l(3), of 8000] sample_conversion [OF l(4), of 8000]
    by (auto simp: js_trunc_def)
qed


section \<open>Properties of the audio range extractor\<close>

lemma end_sample_le_length:
  assumes "0 < sampleRate b"
  shows "\<lfloor>min fin (duration b) * of_nat (sampleRate b)\<rfloor> \<le> int (buffer_length b)"
proof -
  have "min fin (duration b) * of_nat (sampleRate b) \<le> duration b * of_nat (sampleRate b)"
    by (intro mult_right_mono) simp_all
  also have "\<dots> = of_nat (buffer_length b)"
    using assms by (simp add: duration_def)
  finally have "\<lfloor>min fin (duration b) * of_nat (sampleRate b)\<rfloor> \<le> \<lfloor>(of_nat (buffer_length b) :: rat)\<rfloor>"
    by (rule floor_mono)
  then show ?thesis by simp
qed

lemma subarray_in_range:
  "0 \<le> s \<Longrightarrow> s \<le> e \<Longrightarrow> e \<le> int (length xs) \<Longrightarrow>
   subarray xs s e = take (nat (e - s)) (drop (nat s) xs)"
  by (simp add: subarray_def Let_def min_def max_def)

lemma take_drop_length:
  "0 \<le> s \<Longrightarrow> s \<le> e \<Longrightarrow> e \<le> int (length xs) \<Longrightarrow>
   length (take (nat (e - s)) (drop (nat s) xs)) = nat (e - s)"
  by (simp add: min_def) linarith

text \<open>
  A window that holds at least one frame: the slice is one channel of exactly
  \<open>\<lfloor>min end D * R\<rfloor> - \<lfloor>start * R\<rfloor>\<close> frames, copied from channel 0 of the source from frame
  \<open>\<lfloor>start * R\<rfloor>\<close> on, and its last frame lies inside the source.
\<close>

lemma slicedBuffer_nonempty:
  assumes R: "0 < sampleRate b" and ch: "channels b = ch # rest" and s0: "0 \<le> start"
    and ne: "\<lfloor>start * of_nat (sampleRate b)\<rfloor> < \<lfloor>min fin (duration b) * of_nat (sampleRate b)\<rfloor>"
  shows "slicedBuffer b start fin =
    Inr \<lparr>sampleRate = sampleRate b,
         channels = [take (nat (\<lfloor>min fin (duration b) * of_nat (sampleRate b)\<rfloor> - \<lfloor>start * of_nat (sampleRate b)\<rfloor>))
                      (drop (nat \<lfloor>start * of_nat (sampleRate b)\<rfloor>) ch)]\<rparr>"
    and "nat \<lfloor>min fin (duration b) * of_nat (sampleRate b)\<rfloor> \<le> length ch"
proof -
  define s where "s = \<lfloor>start * of_nat (sampleRate b)\<rfloor>"
  define e where "e = \<lfloor>min fin (duration b) * of_nat (sampleRate b)\<rfloor>"
  have bl: "buffer_length b = length ch"
    using ch by (simp add: buffer_length_def)
  have e: "e \<le> int (length ch)"
    using end_sample_le_length [OF R, of fin] by (simp add: bl e_def)
  have s: "0 \<le> s"
    using s0 by (simp add: s_def)
  have se: "s < e"
    using ne by (simp add: s_def e_def)
  show "nat \<lfloor>min fin (duration b) * of_nat (sampleRate b)\<rfloor> \<le> length ch"
    using e by (simp add: e_def)
  have sub: "subarray ch s e = take (nat (e - s)) (drop (nat s) ch)"
    using s e se by (intro subarray_in_range) simp_all
  have len: "length (take (nat (e - s)) (drop (nat s) ch)) = nat (e - s)"
    using s e se by (intro take_drop_length) simp_all
  have fit: "nat (e - s) \<le> length ch - nat s"
    using s e se by linarith
  have "slicedBuffer b start fin =
    Inr \<lparr>sampleRate = sampleRate b, channels = [take (nat (e - s)) (drop (nat s) ch)]\<rparr>"
    unfolding slicedBuffer_def Let_def s_def [symmetric] e_def [symmetric]
    using R se ch fit
    by (simp add: createBuffer_def bindE_def getChannelData_def sub set_array_def max_def)
  then show "slicedBuffer b start fin =
    Inr \<lparr>sampleRate = sampleRate b,
         channels = [take (nat (\<lfloor>min fin (duration b) * of_nat (sampleRate b)\<rfloor> - \<lfloor>start * of_nat (sampleRate b)\<rfloor>))
                      (drop (nat \<lfloor>start * of_nat (sampleRate b)\<rfloor>) ch)]\<rparr>"
    by (simp only: s_def e_def)
qed

text \<open>
  A window without a frame (zero-length or inverted): \<^verbatim>\<open>createBuffer\<close> is asked for a
  buffer of length 0 and raises.
\<close>

lemma slicedBuffer_empty:
  assumes "\<lfloor>min fin (duration b) * of_nat (sampleRate b)\<rfloor> \<le> \<lfloor>start * of_nat (sampleRate b)\<rfloor>"
  shows "slicedBuffer b start fin = Inl NotSupportedError"
  using assms by (simp add: slicedBuffer_def Let_def createBuffer_def bindE_def max_def)

text \<open>Slicing \<open>[10, 1000]\<close> seconds of a 12-second source at 44100 Hz yields \<open>2 * 44100\<close> frames.\<close>

lemma slice_example:
  "\<exists>xs. slicedBuffer \<lparr>sampleRate = 44100, channels = [replicate 529200 0]\<rparr> 10 1000 =
      Inr \<lparr>sampleRate = 44100, channels = [xs]\<rparr> \<and> length xs = 2 * 44100"
proof -
  let ?b = "\<lparr>sampleRate = 44100, channels = [replicate 529200 0]\<rparr>"
  have d: "duration ?b = 12" by (simp add: duration_def buffer_length_def)
  show ?thesis
    by (subst slicedBuffer_nonempty(1) [of ?b "replicate 529200 0" "[]"]) (simp_all add: d)
qed

text \<open>
  Claim C4. The claim has a zero-length or inverted window yield an empty buffer. On a
  12-second source at 44100 Hz the windows \<open>[5, 5]\<close> and \<open>[7, 3]\<close> have
  \<^verbatim>\<open>frameCount = 0\<close>, and the slice, and with it \<^verbatim>\<open>extractAudioForTranscription\<close>, ends in
  the \<^verbatim>\<open>NotSupportedError\<close> of \<^verbatim>\<open>createBuffer(1, 0, sampleRate)\<close>.
\<close>

theorem slice_empty_window:
  "slicedBuffer \<lparr>sampleRate = 44100, channels = [replicate 529200 0]\<rparr> 5 5 = Inl NotSupportedError \<and>
   extractAudioForTranscription \<lparr>sampleRate = 44100, channels = [replicate 529200 0]\<rparr> 5 5
     = Inl NotSupportedError \<and>
   slicedBuffer \<lparr>sampleRate = 44100, channels = [replicate 529200 0]\<rparr> 7 3 = Inl NotSupportedError"
  by (simp add: extractAudioForTranscription_def bindE_def slicedBuffer_empty duration_def buffer_length_def)

section \<open>Properties of the subtitle codec\<close>

subsection \<open>Auxiliary facts\<close>

declare bindE_Inr [simp]

lemma bindE_Inl [simp]: "bindE (Inl e) f = Inl e"
  by (simp add: bindE_def)

lemma splitFrom_nonempty [simp]: "splitFrom sep s \<noteq> []"
  by (induction sep s rule: splitFrom.induct) (auto split: list.splits)

lemma splitFrom_none:
  "sep \<noteq> [] \<Longrightarrow> hd sep \<notin> set s \<Longrightarrow> splitFrom sep s = [s]"
proof (induction s)
  case Nil
  then show ?case by simp
next
  case (Cons x xs)
  then have "\<not> prefix sep (x # xs)"
    by (cases sep) auto
  with Cons show ?case by simp
qed


lemma split_none: "sep \<noteq> [] \<Longrightarrow> hd sep \<notin> set s \<Longrightarrow> split sep s = [s]"
  by (simp add: split_def splitFrom_none)


lemma speakerMatch_Some:
  assumes "p \<noteq> []" "CHR '':'' \<notin> set p"
  shows "speakerMatch (p @ CHR '':'' # r) = Some p"
    and "stripSpeaker (p @ CHR '':'' # r) = dropWhile isSpace r"
proof -
  have "takeWhile (\<lambda>c. c \<noteq> CHR '':'') (p @ CHR '':'' # r) = p"
    using assms(2) by (induction p) auto
  then show "speakerMatch (p @ CHR '':'' # r) = Some p"
    and "stripSpeaker (p @ CHR '':'' # r) = dropWhile isSpace r"
    using assms(1) by (simp_all add: speakerMatch_def stripSpeaker_def Let_def)
qed

lemma speakerMatch_decompose:
  assumes "speakerMatch s = Some p"
  shows "p \<noteq> [] \<and> CHR '':'' \<notin> set p \<and> (\<exists>r. s = p @ CHR '':'' # r)"
proof -
  let ?P = "\<lambda>c. c \<noteq> CHR '':''"
  from assms have p: "p = takeWhile ?P s" "p \<noteq> []" "length p < length s"
    by (auto simp: speakerMatch_def Let_def split: if_splits)
  have "length (takeWhile ?P s) + length (dropWhile ?P s) = length s"
    by (metis length_append takeWhile_dropWhile_id)
  then have "0 < length (dropWhile ?P s)"
    using p(3) unfolding p(1) by linarith
  then have d: "dropWhile ?P s \<noteq> []"
    unfolding length_greater_0_conv .
  then have "hd (dropWhile ?P s) = CHR '':''"
    using hd_dropWhile [of ?P s] by simp
  then have "dropWhile ?P s = CHR '':'' # tl (dropWhile ?P s)"
    using d by (cases "dropWhile ?P s") simp_all
  then have "s = p @ CHR '':'' # tl (dropWhile ?P s)"
    using takeWhile_dropWhile_id [of ?P s] p(1) by simp
  moreover have "CHR '':'' \<notin> set p"
    unfolding p(1) by (auto dest: set_takeWhileD)
  ultimately show ?thesis using p(2) by blast
qed

lemma mapE_Inr_iff: "mapE f xs = Inr ys \<longleftrightarrow> list_all2 (\<lambda>x y. f x = Inr y) xs ys"
proof (induction xs arbitrary: ys)
  case Nil
  then show ?case by auto
next
  case (Cons x xs)
  show ?case
    by (cases ys; cases "f x"; cases "mapE f xs") (simp_all add: Cons.IH [symmetric])
qed


lemma mapE_all_Inr:
  "mapE f xs = Inr ys \<Longrightarrow> x \<in> set xs \<Longrightarrow> \<exists>y. f x = Inr y"
proof -
  assume "mapE f xs = Inr ys" and x: "x \<in> set xs"
  then have l: "list_all2 (\<lambda>x y. f x = Inr y) xs ys"
    by (simp add: mapE_Inr_iff)
  from x obtain i where "i < length xs" "xs ! i = x"
    by (auto simp: in_set_conv_nth)
  with l have "f x = Inr (ys ! i)"
    by (auto simp: list_all2_conv_all_nth)
  then show ?thesis ..
qed

lemma parseBlock_short: "length (split [LF] block) < 3 \<Longrightarrow> parseBlock now i block = Inr None"
  by (simp add: parseBlock_def Let_def)

lemma parseBlock_long:
  assumes "\<not> length (split [LF] block) < 3"
  shows "parseBlock now i block =
     bindE (timeToSec (nth_opt (split '' --> '' (split [LF] block ! 1)) 0)) (\<lambda>st.
     bindE (timeToSec (nth_opt (split '' --> '' (split [LF] block ! 1)) 1)) (\<lambda>en.
       Inr (Some \<lparr>id_sub = ''srt-'' @ showNat (now i) @ ''-'' @ showNat i,
                  startTime = st, endTime = en,
                  text_sub = (if speakerMatch (join '' '' (drop 2 (split [LF] block))) \<noteq> None
                     then stripSpeaker (join '' '' (drop 2 (split [LF] block)))
                     else join '' '' (drop 2 (split [LF] block))),
                  speaker = speakerMatch (join '' '' (drop 2 (split [LF] block)))\<rparr>)))"
  using assms unfolding parseBlock_def Let_def by (simp only: if_False)

lemma parseBlock_Some:
  assumes "parseBlock now i block = Inr (Some sub)"
  shows "3 \<le> length (split [LF] block)"
    and "speaker sub = speakerMatch (join '' '' (drop 2 (split [LF] block)))"
    and "text_sub sub =
      (if speakerMatch (join '' '' (drop 2 (split [LF] block))) \<noteq> None
       then stripSpeaker (join '' '' (drop 2 (split [LF] block)))
       else join '' '' (drop 2 (split [LF] block)))"
proof -
  show l: "3 \<le> length (split [LF] block)"
    using assms parseBlock_short [of block now i] by (cases "length (split [LF] block) < 3") auto
  then have n: "\<not> length (split [LF] block) < 3" by simp
  let ?s = "timeToSec (nth_opt (split '' --> '' (split [LF] block ! 1)) 0)"
  let ?e = "timeToSec (nth_opt (split '' --> '' (split [LF] block ! 1)) 1)"
  from assms obtain st en where "?s = Inr st" "?e = Inr en"
    unfolding parseBlock_long [OF n] by (cases ?s; cases ?e) simp_all
  with assms have "sub = \<lparr>id_sub = ''srt-'' @ showNat (now i) @ ''-'' @ showNat i,
                  startTime = st, endTime = en,
                  text_sub = (if speakerMatch (join '' '' (drop 2 (split [LF] block))) \<noteq> None
                     then stripSpeaker (join '' '' (drop 2 (split [LF] block)))
                     else join '' '' (drop 2 (split [LF] block))),
                  speaker = speakerMatch (join '' '' (drop 2 (split [LF] block)))\<rparr>"
    unfolding parseBlock_long [OF n] by simp
  then show "speaker sub = speakerMatch (join '' '' (drop 2 (split [LF] block)))"
    and "text_sub sub =
      (if speakerMatch (join '' '' (drop 2 (split [LF] block))) \<noteq> None
       then stripSpeaker (join '' '' (drop 2 (split [LF] block)))
       else join '' '' (drop 2 (split [LF] block)))"
    by simp_all
qed

subsection \<open>Speaker inference\<close>

text \<open>
  Claim C2. For a block that decodes to a caption, let the payload be its lines from the
  third on, joined by single spaces. If the payload is a non-empty prefix without a
  colon, then a colon, then a rest, the speaker is that prefix and the text is the rest
  without its leading white space. If the payload has no such form, the speaker is
  absent and the text is the payload. A block with the text line
  \<^verbatim>\<open>Model 1 (F): Hello there\<close> decodes to speaker \<^verbatim>\<open>Model 1 (F)\<close> and text \<^verbatim>\<open>Hello there\<close>;
  with the text line \<^verbatim>\<open>Hello there\<close> it decodes to no speaker and that text.
\<close>

theorem speaker_inference:
  "(parseBlock now i block = Inr (Some sub) \<longrightarrow>
      (let payload = join '' '' (drop 2 (split [LF] block)) in
         (\<forall>p r. payload = p @ CHR '':'' # r \<and> p \<noteq> [] \<and> CHR '':'' \<notin> set p \<longrightarrow>
            speaker sub = Some p \<and> text_sub sub = dropWhile isSpace r) \<and>
         ((\<nexists>p r. payload = p @ CHR '':'' # r \<and> p \<noteq> [] \<and> CHR '':'' \<notin> set p) \<longrightarrow>
            speaker sub = None \<and> text_sub sub = payload))) \<and>
   parseBlock now i ''1\<newline>00:00:01,000 --> 00:00:02,000\<newline>Model 1 (F): Hello there'' =
     Inr (Some \<lparr>id_sub = ''srt-'' @ showNat (now i) @ ''-'' @ showNat i,
                startTime = Fin 1, endTime = Fin 2,
                text_sub = ''Hello there'', speaker = Some ''Model 1 (F)''\<rparr>) \<and>
   parseBlock now i ''1\<newline>00:00:01,000 --> 00:00:02,000\<newline>Hello there'' =
     Inr (Some \<lparr>id_sub = ''srt-'' @ showNat (now i) @ ''-'' @ showNat i,
                startTime = Fin 1, endTime = Fin 2,
                text_sub = ''Hello there'', speaker = None\<rparr>)"
proof (intro conjI impI)
  assume ok: "parseBlock now i block = Inr (Some sub)"
  let ?payload = "join '' '' (drop 2 (split [LF] block))"
  note fields = parseBlock_Some(2,3) [OF ok]
  have a: "speaker sub = Some p \<and> text_sub sub = dropWhile isSpace r"
    if "?payload = p @ CHR '':'' # r \<and> p \<noteq> [] \<and> CHR '':'' \<notin> set p" for p r
    using that speakerMatch_Some [of p r] by (simp add: fields)
  have b: "speaker sub = None \<and> text_sub sub = ?payload"
    if none: "\<nexists>p r. ?payload = p @ CHR '':'' # r \<and> p \<noteq> [] \<and> CHR '':'' \<notin> set p"
  proof -
    have "speakerMatch ?payload = None"
    proof (cases "speakerMatch ?payload")
      case None
      then show ?thesis .
    next
      case (Some p)
      from speakerMatch_decompose [OF this] none show ?thesis by blast
    qed
    then show ?thesis by (simp add: fields)
  qed
  show "let payload = ?payload in
         (\<forall>p r. payload = p @ CHR '':'' # r \<and> p \<noteq> [] \<and> CHR '':'' \<notin> set p \<longrightarrow>
            speaker sub = Some p \<and> text_sub sub = dropWhile isSpace r) \<and>
         ((\<nexists>p r. payload = p @ CHR '':'' # r \<and> p \<noteq> [] \<and> CHR '':'' \<notin> set p) \<longrightarrow>
            speaker sub = None \<and> text_sub sub = payload)"
    unfolding Let_def using a b by blast
qed code_simp+

theorem speaker_inference_witness:
  "parseBlock (\<lambda>_. 0) 0 ''7\<newline>00:00:01,000 --> 00:00:02,000\<newline>Bob:  a:b\<newline>c'' =
     Inr (Some \<lparr>id_sub = ''srt-0-0'', startTime = Fin 1, endTime = Fin 2,
                text_sub = ''a:b c'', speaker = Some ''Bob''\<rparr>) \<and>
   join '' '' (drop 2 (split [LF] ''7\<newline>00:00:01,000 --> 00:00:02,000\<newline>Bob:  a:b\<newline>c'')) = ''Bob'' @ CHR '':'' # ''  a:b c'' \<and>
   speaker \<lparr>id_sub = ''srt-0-0'', startTime = Fin 1, endTime = Fin 2,
                text_sub = ''a:b c'', speaker = Some ''Bob''\<rparr> = Some ''Bob'' \<and>
   text_sub \<lparr>id_sub = ''srt-0-0'', startTime = Fin 1, endTime = Fin 2,
                text_sub = ''a:b c'', speaker = Some ''Bob''\<rparr> = dropWhile isSpace ''  a:b c''"
proof -
  let ?block = "''7\<newline>00:00:01,000 --> 00:00:02,000\<newline>Bob:  a:b\<newline>c''"
  let ?sub = "\<lparr>id_sub = ''srt-0-0'', startTime = Fin 1, endTime = Fin 2,
                text_sub = ''a:b c'', speaker = Some ''Bob''\<rparr>"
  have p: "parseBlock (\<lambda>_. 0) 0 ?block = Inr (Some ?sub)"
    by code_simp
  have j: "join '' '' (drop 2 (split [LF] ?block)) = ''Bob'' @ CHR '':'' # ''  a:b c''"
    by code_simp
  have q: "''Bob'' \<noteq> [] \<and> CHR '':'' \<notin> set ''Bob''"
    by simp
  from speaker_inference [of "\<lambda>_. 0" 0 ?block ?sub] p j q
  have "speaker ?sub = Some ''Bob'' \<and> text_sub ?sub = dropWhile isSpace ''  a:b c''"
    unfolding Let_def by blast
  with p j show ?thesis by blast
qed

subsection \<open>Timecodes\<close>




subsection \<open>Failure of the decoder\<close>







lemma timeToSec_Some: "\<exists>x. timeToSec (Some s) = Inr x"
  by (simp add: timeToSec_def Let_def nth_opt_def split_def)

lemma parseBlock_no_arrow:
  assumes "\<not> length (split [LF] block) < 3" and "CHR '' '' \<notin> set (split [LF] block ! 1)"
  shows "parseBlock now i block = Inl TypeError"
proof -
  have "split '' --> '' (split [LF] block ! 1) = [split [LF] block ! 1]"
    using assms(2) by (intro split_none) simp_all
  then show ?thesis
    unfolding parseBlock_long [OF assms(1)]
    using timeToSec_Some [of "split [LF] block ! 1"]
    by (auto simp: nth_opt_def timeToSec_def)
qed









subsection \<open>Short blocks\<close>







subsection \<open>Translation\<close>

text \<open>
  Claim C9, as amended. \<^verbatim>\<open>translateSubtitles\<close> returns an array exactly when the response
  denotes one, and then returns that array as it is, whatever captions were sent. So
  the result echoes the \<^verbatim>\<open>id\<close>, \<^verbatim>\<open>startTime\<close>, \<^verbatim>\<open>endTime\<close> and \<^verbatim>\<open>speaker\<close> of the input
  captions when the response does.
\<close>

theorem translate_returns_response:
  "(translateSubtitles generateContent subs adultContext = Inr out) =
     (generateContent \<lparr>adult_context = adultContext, json_data = subs\<rparr> = Parsed (JArray out)) \<and>
   (generateContent \<lparr>adult_context = adultContext, json_data = subs\<rparr> = Parsed (JArray items) \<and>
    list_all2 echoes subs items \<longrightarrow>
      (\<exists>out. translateSubtitles generateContent subs adultContext = Inr out \<and> list_all2 echoes subs out))"
  by (auto simp: translateSubtitles_def split: reply.splits json.splits)

theorem translate_returns_response_witness:
  "\<exists>out. translateSubtitles
      (\<lambda>_. Parsed (JArray [JObject [(''id'', JString ''a''), (''startTime'', JNumber 1), (''endTime'', JNumber 2),
                (''speaker'', JString ''S''), (''text'', JString ''hello'')]]))
      [\<lparr>id_sub = ''a'', startTime = Fin 1, endTime = Fin 2, text_sub = ''hola'', speaker = Some ''S''\<rparr>] False
     = Inr out \<and>
     list_all2 echoes [\<lparr>id_sub = ''a'', startTime = Fin 1, endTime = Fin 2, text_sub = ''hola'', speaker = Some ''S''\<rparr>] out"
proof -
  let ?items = "[JObject [(''id'', JString ''a''), (''startTime'', JNumber 1), (''endTime'', JNumber 2),
                (''speaker'', JString ''S''), (''text'', JString ''hello'')]]"
  let ?subs = "[\<lparr>id_sub = ''a'', startTime = Fin 1, endTime = Fin 2, text_sub = ''hola'', speaker = Some ''S''\<rparr>]"
  have e: "list_all2 echoes ?subs ?items"
    by (simp add: echoes_def field_def number_json_def)
  from translate_returns_response [of "\<lambda>_. Parsed (JArray ?items)" ?subs False _ ?items] e
  show ?thesis by blast
qed

text \<open>
  Claim C9 as stated fails: a response that is an array with another \<^verbatim>\<open>id\<close>, other times
  and another speaker is returned unchanged, and so is an empty array.
\<close>

theorem translate_not_preserving:
  "translateSubtitles
      (\<lambda>_. Parsed (JArray [JObject [(''id'', JString ''zz''), (''startTime'', JNumber 7), (''endTime'', JNumber 9),
                (''speaker'', JString ''T''), (''text'', JString ''hello'')]]))
      [\<lparr>id_sub = ''a'', startTime = Fin 1, endTime = Fin 2, text_sub = ''hola'', speaker = Some ''S''\<rparr>] False
     = Inr [JObject [(''id'', JString ''zz''), (''startTime'', JNumber 7), (''endTime'', JNumber 9),
                (''speaker'', JString ''T''), (''text'', JString ''hello'')]] \<and>
   \<not> list_all2 echoes
       [\<lparr>id_sub = ''a'', startTime = Fin 1, endTime = Fin 2, text_sub = ''hola'', speaker = Some ''S''\<rparr>]
       [JObject [(''id'', JString ''zz''), (''startTime'', JNumber 7), (''endTime'', JNumber 9),
                (''speaker'', JString ''T''), (''text'', JString ''hello'')]] \<and>
   translateSubtitles (\<lambda>_. Parsed (JArray []))
      [\<lparr>id_sub = ''a'', startTime = Fin 1, endTime = Fin 2, text_sub = ''hola'', speaker = Some ''S''\<rparr>] False
     = Inr []"
  by (simp add: translateSubtitles_def echoes_def field_def number_json_def)

subsection \<open>Round trip: splitting into blocks\<close>

text \<open>\<open>prepend u xs\<close> puts \<open>u\<close> in front of the first string of \<open>xs\<close>.\<close>

definition prepend :: "string \<Rightarrow> string list \<Rightarrow> string list" where
  "prepend u xs = (case xs of [] \<Rightarrow> [u] | r # rs \<Rightarrow> (u @ r) # rs)"

lemma splitBlocks_nonempty [simp]: "splitBlocks s \<noteq> []"
  by (induction s rule: splitBlocks.induct) (auto split: option.splits list.splits)

lemma prepend_Nil [simp]: "prepend [] xs = xs" if "xs \<noteq> []"
  using that by (cases xs) (simp_all add: prepend_def)



lemma prepend_nonempty [simp]: "prepend u xs \<noteq> []"
  by (cases xs) (simp_all add: prepend_def)








subsection \<open>Round trip: digits\<close>

definition pad3 :: "int \<Rightarrow> string" where
  "pad3 n = padStart 3 (CHR ''0'') (showInt n)"

lemma isDigit_plain:
  "isDigit c \<Longrightarrow> \<not> isSpace c \<and> c \<noteq> LF \<and> c \<noteq> CHR '' '' \<and> c \<noteq> CHR '':'' \<and> c \<noteq> CHR '',''"
  by (auto simp: isDigit_def isSpace_def LF_def)



lemma isDigit_digitChar: "d < 10 \<Longrightarrow> isDigit (digitChar d)"
  by (simp add: isDigit_def digitChar_def)



lemma showNat_digits: "list_all isDigit (showNat n)"
proof (induction n rule: showNat.induct)
  case (1 n)
  show ?case
  proof (cases "n < 10")
    case True
    then show ?thesis by (subst showNat.simps) (simp add: isDigit_digitChar)
  next
    case False
    with 1 show ?thesis by (subst showNat.simps) (simp add: isDigit_digitChar)
  qed
qed

lemma showNat_nonempty: "showNat n \<noteq> []"
  by (subst showNat.simps) simp











subsection \<open>Round trip: timecodes\<close>

text \<open>
  \<open>timecode a\<close> is the timecode of \<open>a\<close> seconds within the first day, and \<open>millis a\<close> is
  \<open>a\<close> rounded down to the millisecond, the value the timecode decodes to.
\<close>

definition timecode :: "rat \<Rightarrow> string" where
  "timecode a =
     (let t = \<lfloor>a\<rfloor> in
      pad2 (t div 3600) @ '':'' @ pad2 ((t mod 3600) div 60) @ '':'' @ pad2 (t mod 60) @ '','' @
      pad3 \<lfloor>(a - of_int t) * 1000\<rfloor>)"









subsection \<open>Round trip: one caption\<close>


definition label :: "Subtitle \<Rightarrow> string" where
  "label c = (case speaker c of None \<Rightarrow> [] | Some sp \<Rightarrow> if sp = [] then [] else sp @ '': '')"

definition payload :: "Subtitle \<Rightarrow> string" where
  "payload c = label c @ text_sub c"

definition blockBody :: "nat \<Rightarrow> Subtitle \<Rightarrow> string \<Rightarrow> string" where
  "blockBody i c p =
     showNat (i + 1) @ [LF] @ timecode (sortKey (startTime c)) @ '' --> ''
       @ timecode (sortKey (endTime c)) @ [LF] @ p"























subsection \<open>Round trip: the whole text\<close>





lemma blockBody_head: "blockBody i c p \<noteq> [] \<and> \<not> isSpace (hd (blockBody i c p))"
proof -
  obtain d ds where s: "showNat (Suc i) = d # ds"
    using showNat_nonempty [of "Suc i"] by (cases "showNat (Suc i)") auto
  then have "isDigit d"
    using showNat_digits [of "Suc i"] by simp
  then show ?thesis
    using isDigit_plain [of d] by (simp add: blockBody_def s)
qed

lemma blockBody_has_plain: "\<exists>x\<in>set (blockBody i c p). \<not> isSpace x"
  using blockBody_head [of i c p] by (cases "blockBody i c p") auto








subsection \<open>Round trip: the claim\<close>













end
